theory Spec2Isabelle
  imports Main "HOL-Library.Multiset"
begin

section \<open>The forget command of restic (cmds/restic/cmd\_forget.go)\<close>

subsection \<open>Data model\<close>

text \<open>Go error values are opaque; they are carried around unchanged.\<close>

datatype error = Error string

text \<open>
  A snapshot as the command reads it: \<open>ID\<close> is the full identifier
  (\<open>sn.ID().String()\<close>), \<open>Time\<close> the creation instant.
\<close>

record Snapshot =
  ID :: string
  Time :: int
  Hostname :: string
  Tags :: "string list"
  Paths :: "string list"

record ExpirePolicy =
  Last :: int
  Hourly :: int
  Daily :: int
  Weekly :: int
  Monthly :: int
  Yearly :: int
  Tags :: "string list"

record CmdForget =
  Last :: int
  Hourly :: int
  Daily :: int
  Weekly :: int
  Monthly :: int
  Yearly :: int
  KeepTags :: "string list"
  Hostname :: string
  Tags :: "string list"
  DryRun :: bool

text \<open>The local struct \<open>key\<close> of \<open>Execute\<close>.\<close>

record key =
  Hostname :: string
  Dirs :: string

type_synonym groups = "(key \<times> Snapshot list) list"

text \<open>
  What the command does to the outside world, in the order it does it. Formatted
  output is recorded as the format string with its arguments.
\<close>

datatype fmtarg = S string | I int

record Table =
  Header :: string
  RowFormat :: string
  Rows :: "string list list"

datatype event =
    EvOpenRepository
  | EvLockRepoExclusive
  | EvUnlockRepo
  | EvLoadIndex
  | EvFindSnapshot string
  | EvRemove string
  | EvLoadAllSnapshots
  | EvVerbosef string "fmtarg list"
  | EvPrintf string "fmtarg list"
  | EvTableWrite Table

text \<open>
  The collaborators of the command that live outside this file: the repository
  (whose state has type \<open>'st\<close>), its backend, the policy evaluator, the
  formatting of identifiers and times, and the order in which the Go runtime
  ranges over the map of groups.
\<close>

record 'st env =
  OpenRepository :: "error option"
  lockRepoExclusive :: "'st \<Rightarrow> error option"
  LoadIndex :: "'st \<Rightarrow> error option"
  FindSnapshot :: "'st \<Rightarrow> string \<Rightarrow> error + string"
  Remove :: "'st \<Rightarrow> string \<Rightarrow> error option \<times> 'st"
  LoadAllSnapshots :: "'st \<Rightarrow> error + Snapshot list"
  ApplyPolicy :: "Snapshot list \<Rightarrow> ExpirePolicy \<Rightarrow> Snapshot list \<times> Snapshot list"
  Str :: "string \<Rightarrow> string"
  Format :: "int \<Rightarrow> string"
  range_order :: "groups \<Rightarrow> groups"

type_synonym 'st outcome = "error option \<times> 'st \<times> event list"

subsection \<open>Helpers of the standard library and of package restic\<close>

text \<open>\<open>strings.Join\<close> of the Go standard library.\<close>

fun Join :: "string list \<Rightarrow> string \<Rightarrow> string" where
  "Join [] sep = ''''"
| "Join [a] sep = a"
| "Join (a # b # r) sep = a @ sep @ Join (b # r) sep"

text \<open>
  Modelled from the spec: \<open>Snapshot.HasTags\<close> of package restic is not part of
  the source at hand. The spec: a snapshot passes the required-tags filter when
  it carries all required tags; an empty filter is no filter.
\<close>

definition HasTags :: "Snapshot \<Rightarrow> string list \<Rightarrow> bool" where
  "HasTags sn tags = list_all (\<lambda>t. t \<in> set (Snapshot.Tags sn)) tags"

text \<open>
  Modelled from the spec: \<open>ExpirePolicy.Empty\<close> of package restic is not part of
  the source at hand. The spec: a policy is empty iff every count is 0 and
  \<open>keepTags\<close> is empty.
\<close>

definition Empty :: "ExpirePolicy \<Rightarrow> bool" where
  "Empty p =
     (ExpirePolicy.Last p = 0 \<and> ExpirePolicy.Hourly p = 0 \<and> ExpirePolicy.Daily p = 0 \<and>
      ExpirePolicy.Weekly p = 0 \<and> ExpirePolicy.Monthly p = 0 \<and> ExpirePolicy.Yearly p = 0 \<and>
      ExpirePolicy.Tags p = [])"

subsection \<open>printSnapshots\<close>

text \<open>The continuation row number \<open>i\<close> of a snapshot (body of the inner loop).\<close>

definition continuation_row :: "Snapshot \<Rightarrow> nat \<Rightarrow> string list" where
  "continuation_row sn i =
     (let path = (if length (Paths sn) > i then Paths sn ! i else '''');
          tag = (if length (Snapshot.Tags sn) > i then Snapshot.Tags sn ! i else '''')
      in ['''', '''', '''', tag, path])"

text \<open>The rows one snapshot adds to the table once it has passed the path check.\<close>

definition snapshot_rows :: "'st env \<Rightarrow> Snapshot \<Rightarrow> string list list" where
  "snapshot_rows env sn =
     (let firstTag = (if length (Snapshot.Tags sn) > 0 then Snapshot.Tags sn ! 0 else '''');
          rows = (if length (Snapshot.Tags sn) > length (Paths sn)
                  then length (Snapshot.Tags sn) else length (Paths sn))
      in [Str env (ID sn), Format env (Time sn), Snapshot.Hostname sn, firstTag, Paths sn ! 0]
         # map (continuation_row sn) [1..<rows])"

text \<open>The outer loop of \<open>printSnapshots\<close>: a snapshot without paths is skipped.\<close>

fun table_rows :: "'st env \<Rightarrow> Snapshot list \<Rightarrow> string list list" where
  "table_rows env [] = []"
| "table_rows env (sn # sns) =
     (if length (Paths sn) = 0 then table_rows env sns
      else snapshot_rows env sn @ table_rows env sns)"

definition printSnapshots :: "'st env \<Rightarrow> Snapshot list \<Rightarrow> event" where
  "printSnapshots env snapshots =
     EvTableWrite \<lparr> Header = ''ID        Date                 Host        Tags        Directory'',
                    RowFormat = ''%-8s  %-19s  %-10s  %-10s  %s'',
                    Rows = table_rows env snapshots \<rparr>"

subsection \<open>Execute\<close>

text \<open>The first loop: the snapshot IDs given as arguments.\<close>

fun forget_args :: "'st env \<Rightarrow> bool \<Rightarrow> string list \<Rightarrow> 'st \<Rightarrow> 'st outcome" where
  "forget_args env dry [] st = (None, st, [])"
| "forget_args env dry (s # ss) st =
     (case FindSnapshot env st s of
        Inl err \<Rightarrow> (Some err, st, [EvFindSnapshot s])
      | Inr sid \<Rightarrow>
          if \<not> dry then
            (case Remove env st sid of
               (Some err, st') \<Rightarrow> (Some err, st', [EvFindSnapshot s, EvRemove sid])
             | (None, st') \<Rightarrow>
                 (case forget_args env dry ss st' of
                    (err, st'', evs) \<Rightarrow>
                      (err, st'',
                       [EvFindSnapshot s, EvRemove sid,
                        EvVerbosef ''removed snapshot %v\<newline>'' [S (Str env sid)]] @ evs)))
          else
            (case forget_args env dry ss st of
               (err, st'', evs) \<Rightarrow>
                 (err, st'',
                  [EvFindSnapshot s,
                   EvVerbosef ''would removed snapshot %v\<newline>'' [S (Str env sid)]] @ evs)))"

definition policy_of :: "CmdForget \<Rightarrow> ExpirePolicy" where
  "policy_of cmd =
     \<lparr> ExpirePolicy.Last = CmdForget.Last cmd,
       ExpirePolicy.Hourly = CmdForget.Hourly cmd,
       ExpirePolicy.Daily = CmdForget.Daily cmd,
       ExpirePolicy.Weekly = CmdForget.Weekly cmd,
       ExpirePolicy.Monthly = CmdForget.Monthly cmd,
       ExpirePolicy.Yearly = CmdForget.Yearly cmd,
       ExpirePolicy.Tags = KeepTags cmd \<rparr>"

text \<open>
  The map \<open>snapshotGroups\<close> is an association list with distinct keys; reading
  a key that is absent gives the nil slice.
\<close>

definition group_lookup :: "groups \<Rightarrow> key \<Rightarrow> Snapshot list" where
  "group_lookup m k = (case map_of m k of None \<Rightarrow> [] | Some list \<Rightarrow> list)"

fun group_store :: "groups \<Rightarrow> key \<Rightarrow> Snapshot list \<Rightarrow> groups" where
  "group_store [] k list = [(k, list)]"
| "group_store ((k', l') # m) k list =
     (if k' = k then (k, list) # m else (k', l') # group_store m k list)"

definition key_of :: "Snapshot \<Rightarrow> key" where
  "key_of sn = \<lparr> key.Hostname = Snapshot.Hostname sn, Dirs = Join (Paths sn) '':'' \<rparr>"

text \<open>The second loop: filter by hostname and tags, group by hostname and dirs.\<close>

fun group_snapshots :: "CmdForget \<Rightarrow> Snapshot list \<Rightarrow> groups \<Rightarrow> groups" where
  "group_snapshots cmd [] m = m"
| "group_snapshots cmd (sn # sns) m =
     (if CmdForget.Hostname cmd \<noteq> '''' \<and> Snapshot.Hostname sn \<noteq> CmdForget.Hostname cmd
      then group_snapshots cmd sns m
      else if \<not> HasTags sn (CmdForget.Tags cmd) then group_snapshots cmd sns m
      else
        (let k = key_of sn;
             list = group_lookup m k
         in group_snapshots cmd sns (group_store m k (list @ [sn]))))"

text \<open>The innermost loop: removing the snapshots of one remove-set.\<close>

fun remove_snapshots :: "'st env \<Rightarrow> Snapshot list \<Rightarrow> 'st \<Rightarrow> 'st outcome" where
  "remove_snapshots env [] st = (None, st, [])"
| "remove_snapshots env (sn # sns) st =
     (case Remove env st (ID sn) of
        (Some err, st') \<Rightarrow> (Some err, st', [EvRemove (ID sn)])
      | (None, st') \<Rightarrow>
          (case remove_snapshots env sns st' of
             (err, st'', evs) \<Rightarrow> (err, st'', EvRemove (ID sn) # evs)))"

text \<open>What is printed for one group, before anything of it is removed.\<close>

definition report :: "'st env \<Rightarrow> key \<Rightarrow> Snapshot list \<Rightarrow> Snapshot list \<Rightarrow> event list" where
  "report env k keep remove =
     [EvPrintf ''snapshots for host %v, directories %v:\<newline>\<newline>'' [S (key.Hostname k), S (Dirs k)],
      EvPrintf ''keep %d snapshots:\<newline>'' [I (int (length keep))],
      printSnapshots env keep,
      EvPrintf ''\<newline>'' [],
      EvPrintf ''remove %d snapshots:\<newline>'' [I (int (length remove))],
      printSnapshots env remove,
      EvPrintf ''\<newline>'' []]"

text \<open>The third loop, over the groups in the order the runtime hands them out.\<close>

fun forget_groups :: "'st env \<Rightarrow> bool \<Rightarrow> ExpirePolicy \<Rightarrow> groups \<Rightarrow> 'st \<Rightarrow> 'st outcome" where
  "forget_groups env dry policy [] st = (None, st, [])"
| "forget_groups env dry policy ((k, snapshotGroup) # gs) st =
     (case ApplyPolicy env snapshotGroup policy of
        (keep, remove) \<Rightarrow>
          if \<not> dry then
            (case remove_snapshots env remove st of
               (Some err, st', evs) \<Rightarrow> (Some err, st', report env k keep remove @ evs)
             | (None, st', evs) \<Rightarrow>
                 (case forget_groups env dry policy gs st' of
                    (err, st'', evs') \<Rightarrow> (err, st'', report env k keep remove @ evs @ evs')))
          else
            (case forget_groups env dry policy gs st of
               (err, st'', evs') \<Rightarrow> (err, st'', report env k keep remove @ evs')))"

text \<open>
  The statements of \<open>Execute\<close> that run while the deferred unlock is pending;
  \<open>lockerr\<close> is the error returned by \<open>lockRepoExclusive\<close>.
\<close>

definition Execute_locked ::
  "'st env \<Rightarrow> CmdForget \<Rightarrow> string list \<Rightarrow> error option \<Rightarrow> 'st \<Rightarrow> 'st outcome" where
  "Execute_locked env cmd args lockerr st =
     (case lockerr of
        Some err \<Rightarrow> (Some err, st, [])
      | None \<Rightarrow>
          (case LoadIndex env st of
             Some err \<Rightarrow> (Some err, st, [EvLoadIndex])
           | None \<Rightarrow>
               (case forget_args env (DryRun cmd) args st of
                  (Some err, st1, evs) \<Rightarrow> (Some err, st1, EvLoadIndex # evs)
                | (None, st1, evs) \<Rightarrow>
                    if Empty (policy_of cmd) then (None, st1, EvLoadIndex # evs)
                    else
                      (case LoadAllSnapshots env st1 of
                         Inl err \<Rightarrow> (Some err, st1, EvLoadIndex # evs @ [EvLoadAllSnapshots])
                       | Inr snapshots \<Rightarrow>
                           (case forget_groups env (DryRun cmd) (policy_of cmd)
                                   (range_order env (group_snapshots cmd snapshots [])) st1 of
                              (err, st2, evs2) \<Rightarrow>
                                (err, st2, EvLoadIndex # evs @ [EvLoadAllSnapshots] @ evs2))))))"

definition Execute :: "'st env \<Rightarrow> CmdForget \<Rightarrow> string list \<Rightarrow> 'st \<Rightarrow> 'st outcome" where
  "Execute env cmd args st =
     (case OpenRepository env of
        Some err \<Rightarrow> (Some err, st, [EvOpenRepository])
      | None \<Rightarrow>
          (case Execute_locked env cmd args (lockRepoExclusive env st) st of
             (err, st', evs) \<Rightarrow>
               (err, st', [EvOpenRepository, EvLockRepoExclusive] @ evs @ [EvUnlockRepo])))"

subsection \<open>Reading an outcome\<close>

definition err_of :: "'st outcome \<Rightarrow> error option" where
  "err_of r = fst r"

definition store_of :: "'st outcome \<Rightarrow> 'st" where
  "store_of r = fst (snd r)"

definition trace_of :: "'st outcome \<Rightarrow> event list" where
  "trace_of r = snd (snd r)"

text \<open>The identifiers handed to the backend's \<open>Remove\<close>, in order.\<close>

fun removals :: "event list \<Rightarrow> string list" where
  "removals [] = []"
| "removals (EvRemove sid # evs) = sid # removals evs"
| "removals (_ # evs) = removals evs"

text \<open>The events of the report: \<open>Printf\<close> and the table.\<close>

fun is_report :: "event \<Rightarrow> bool" where
  "is_report (EvPrintf f as) = True"
| "is_report (EvTableWrite t) = True"
| "is_report _ = False"

text \<open>The kinds of event the loop over the arguments can produce.\<close>

fun is_args_event :: "event \<Rightarrow> bool" where
  "is_args_event (EvFindSnapshot s) = True"
| "is_args_event (EvRemove s) = True"
| "is_args_event (EvVerbosef f as) = True"
| "is_args_event _ = False"


text \<open>
  The filter of the grouping stage in the words of the spec: a snapshot is excluded
  if a hostname filter is set and differs from its hostname, or if it does not
  carry all required tags.
\<close>

definition excluded :: "CmdForget \<Rightarrow> Snapshot \<Rightarrow> bool" where
  "excluded cmd sn =
     ((CmdForget.Hostname cmd \<noteq> '''' \<and> CmdForget.Hostname cmd \<noteq> Snapshot.Hostname sn) \<or>
      \<not> set (CmdForget.Tags cmd) \<subseteq> set (Snapshot.Tags sn))"

text \<open>The snapshots that have found their way into some group.\<close>

definition grouped :: "groups \<Rightarrow> Snapshot list" where
  "grouped m = concat (map snd m)"

text \<open>Two snapshots end up in the same list of the map of groups.\<close>

definition same_group :: "groups \<Rightarrow> Snapshot \<Rightarrow> Snapshot \<Rightarrow> bool" where
  "same_group m a b = list_ex (\<lambda>(k, list). a \<in> set list \<and> b \<in> set list) m"

subsection \<open>The policy evaluator\<close>

text \<open>
  The calendar bucket of an instant for each granularity. The spec leaves the
  time zone open, so the calendar is a parameter of the evaluator.
\<close>

record calendar =
  hour_key :: "int \<Rightarrow> int"
  day_key :: "int \<Rightarrow> int"
  week_key :: "int \<Rightarrow> int"
  month_key :: "int \<Rightarrow> int"
  year_key :: "int \<Rightarrow> int"

definition intersects :: "string list \<Rightarrow> string list \<Rightarrow> bool" where
  "intersects a b = list_ex (\<lambda>t. t \<in> set b) a"

text \<open>
  One bucketed pass over the numbered snapshots, newest first: a snapshot is
  selected when its bucket has not been consumed by this pass and the count of
  the pass is below the limit.
\<close>

fun bucket_pass :: "(int \<Rightarrow> int) \<Rightarrow> int \<Rightarrow> (nat \<times> Snapshot) list \<Rightarrow> int list \<Rightarrow> nat list" where
  "bucket_pass bucket limit [] consumed = []"
| "bucket_pass bucket limit ((i, sn) # rest) consumed =
     (if bucket (Time sn) \<notin> set consumed \<and> int (length consumed) < limit
      then i # bucket_pass bucket limit rest (bucket (Time sn) # consumed)
      else bucket_pass bucket limit rest consumed)"

text \<open>
  Modelled from the spec: \<open>restic.ApplyPolicy\<close> is not part of the source at
  hand. The spec gives its contract as \<open>evaluate(group, policy) (keep, remove)\<close>:
  sort by time descending (stable); keep every snapshot with a tag of
  \<open>keepTags\<close>; of the others keep the first \<open>keepLast\<close>; run the hourly, daily,
  weekly, monthly and yearly passes over what remains; the keep-set is the union
  of all selections and the remove-set is the rest, both in sorted order.
\<close>

definition evaluate :: "calendar \<Rightarrow> Snapshot list \<Rightarrow> ExpirePolicy \<Rightarrow> Snapshot list \<times> Snapshot list" where
  "evaluate cal grp policy =
     (let sorted = enumerate 0 (sort_key (\<lambda>sn. - Time sn) grp);
          tagged = map fst (filter (\<lambda>(i, sn). intersects (Snapshot.Tags sn) (ExpirePolicy.Tags policy)) sorted);
          remaining = filter (\<lambda>(i, sn). i \<notin> set tagged) sorted;
          lastn = map fst (take (nat (ExpirePolicy.Last policy)) remaining);
          rest = filter (\<lambda>(i, sn). i \<notin> set lastn) remaining;
          kept = tagged @ lastn
               @ bucket_pass (hour_key cal) (ExpirePolicy.Hourly policy) rest []
               @ bucket_pass (day_key cal) (ExpirePolicy.Daily policy) rest []
               @ bucket_pass (week_key cal) (ExpirePolicy.Weekly policy) rest []
               @ bucket_pass (month_key cal) (ExpirePolicy.Monthly policy) rest []
               @ bucket_pass (year_key cal) (ExpirePolicy.Yearly policy) rest []
      in (map snd (filter (\<lambda>(i, sn). i \<in> set kept) sorted),
          map snd (filter (\<lambda>(i, sn). i \<notin> set kept) sorted)))"

subsection \<open>A small repository to run the command on\<close>

text \<open>
  Instants are seconds; the calendar below cuts them into hours, days, weeks of
  seven days, months of thirty days and years of 365 days.
\<close>

definition cal0 :: calendar where
  "cal0 = \<lparr> hour_key = (\<lambda>t. t div 3600), day_key = (\<lambda>t. t div 86400),
            week_key = (\<lambda>t. t div 604800), month_key = (\<lambda>t. t div 2592000),
            year_key = (\<lambda>t. t div 31536000) \<rparr>"

definition snA :: Snapshot where
  "snA = \<lparr> ID = ''aa11'', Time = 100, Hostname = ''alpha'', Tags = [''pin''], Paths = [''/home''] \<rparr>"

definition snB :: Snapshot where
  "snB = \<lparr> ID = ''bb22'', Time = 200000, Hostname = ''alpha'', Tags = [], Paths = [''/home''] \<rparr>"

definition snC :: Snapshot where
  "snC = \<lparr> ID = ''cc33'', Time = 300, Hostname = ''beta'', Tags = [], Paths = [] \<rparr>"

definition snD :: Snapshot where
  "snD = \<lparr> ID = ''dd44'', Time = 400000, Hostname = ''beta'', Tags = [''x'', ''y''], Paths = [] \<rparr>"

definition snP :: Snapshot where
  "snP = \<lparr> ID = ''ee55'', Time = 5, Hostname = ''alpha'', Tags = [], Paths = [''a'', ''a:a''] \<rparr>"

definition snQ :: Snapshot where
  "snQ = \<lparr> ID = ''ff66'', Time = 6, Hostname = ''alpha'', Tags = [], Paths = [''a:a'', ''a''] \<rparr>"

text \<open>
  The state of the repository is the list of the snapshots in it. An identifier
  resolves when it is the prefix of exactly one snapshot's; removal fails for a
  snapshot that is not there and, to have a failing backend, for \<open>aa11\<close>.
\<close>

definition env0 :: "Snapshot list env" where
  "env0 =
     \<lparr> OpenRepository = None,
       lockRepoExclusive = (\<lambda>st. None),
       LoadIndex = (\<lambda>st. None),
       FindSnapshot = (\<lambda>st s.
          case filter (\<lambda>sn. take (length s) (ID sn) = s) st of
            [sn] \<Rightarrow> Inr (ID sn)
          | _ \<Rightarrow> Inl (Error ''no unique snapshot'')),
       Remove = (\<lambda>st sid.
          if sid = ''aa11'' \<or> sid \<notin> ID ` set st then (Some (Error ''remove failed''), st)
          else (None, filter (\<lambda>sn. ID sn \<noteq> sid) st)),
       LoadAllSnapshots = (\<lambda>st. Inr st),
       ApplyPolicy = evaluate cal0,
       Str = take 8,
       Format = (\<lambda>t. ''time''),
       range_order = rev \<rparr>"

definition cmd0 :: CmdForget where
  "cmd0 = \<lparr> CmdForget.Last = 0, Hourly = 0, Daily = 0, Weekly = 0, Monthly = 0, Yearly = 0,
            KeepTags = [], Hostname = '''', Tags = [], DryRun = False \<rparr>"

definition store0 :: "Snapshot list" where
  "store0 = [snA, snB, snC, snD]"

definition cmd1 :: CmdForget where
  "cmd1 = cmd0\<lparr>KeepTags := [''nope'']\<rparr>"

definition alpha_home :: key where
  "alpha_home = \<lparr> key.Hostname = ''alpha'', Dirs = ''/home'' \<rparr>"

definition beta_none :: key where
  "beta_none = \<lparr> key.Hostname = ''beta'', Dirs = '''' \<rparr>"

definition snR :: Snapshot where
  "snR = \<lparr> ID = ''1177'', Time = 7, Hostname = ''alpha'', Tags = [], Paths = [''/a'', ''/b''] \<rparr>"

definition snS :: Snapshot where
  "snS = \<lparr> ID = ''2288'', Time = 8, Hostname = ''alpha'', Tags = [], Paths = [''/b'', ''/a''] \<rparr>"

definition cmd2 :: CmdForget where
  "cmd2 = cmd0\<lparr>CmdForget.Hostname := ''beta''\<rparr>"

section \<open>Properties\<close>

subsection \<open>Auxiliary facts\<close>

lemmas demo_defs = env0_def cmd0_def cmd1_def store0_def snA_def snB_def snC_def snD_def
  alpha_home_def beta_none_def

lemma err_of_simp: "err_of (e, s, t) = e"
  by (simp add: err_of_def)

lemma store_of_simp: "store_of (e, s, t) = s"
  by (simp add: store_of_def)

lemma trace_of_simp: "trace_of (e, s, t) = t"
  by (simp add: trace_of_def)

lemmas outcome_simps = err_of_simp store_of_simp trace_of_simp

lemma removals_append: "removals (xs @ ys) = removals xs @ removals ys"
  by (induction xs rule: removals.induct) simp_all

lemma removals_report: "removals (report env k keep remove) = []"
  by (simp add: report_def printSnapshots_def)

lemma forget_args_dry:
  "forget_args env True args st = (err, st', evs) \<Longrightarrow> st' = st \<and> removals evs = []"
  by (induction args arbitrary: err st' evs)
     (auto split: sum.splits prod.splits)

lemma forget_groups_dry:
  "forget_groups env True policy gs st = (err, st', evs) \<Longrightarrow> st' = st \<and> removals evs = []"
proof (induction gs arbitrary: err st' evs)
  case Nil
  then show ?case by simp
next
  case (Cons g gs)
  obtain k grp where g: "g = (k, grp)" by (cases g)
  obtain keep remove where ap: "ApplyPolicy env grp policy = (keep, remove)"
    by (cases "ApplyPolicy env grp policy")
  obtain e1 s1 t1 where rest: "forget_groups env True policy gs st = (e1, s1, t1)"
    by (cases "forget_groups env True policy gs st")
  from Cons.IH [OF rest] have "s1 = st" "removals t1 = []" by simp_all
  with Cons.prems g ap rest show ?case
    by (auto simp: removals_append removals_report)
qed

subsection \<open>Dry run\<close>

text \<open>
  C1: with the dry-run flag set, \<open>Execute\<close> never calls the backend's \<open>Remove\<close>,
  whatever the policy flags, the filters and the identifiers given as arguments
  are, and whatever the collaborators answer: the trace holds no removal, neither
  for an identifier given as argument nor for a remove-set, and the repository is
  left in the state it was found in.
\<close>

theorem dry_run_never_removes:
  "DryRun cmd \<Longrightarrow>
     removals (trace_of (Execute env cmd args st)) = [] \<and>
     store_of (Execute env cmd args st) = st"
  by (auto simp: Execute_def Execute_locked_def outcome_simps removals_append
           split: option.splits sum.splits prod.splits
           dest: forget_args_dry forget_groups_dry)

theorem dry_run_never_removes_witness:
  "DryRun (cmd0\<lparr>CmdForget.Last := 1, DryRun := True\<rparr>) \<and>
   removals (trace_of (Execute env0 (cmd0\<lparr>CmdForget.Last := 1, DryRun := True\<rparr>) [''aa''] store0)) = [] \<and>
   store_of (Execute env0 (cmd0\<lparr>CmdForget.Last := 1, DryRun := True\<rparr>) [''aa''] store0) = store0"
  using dry_run_never_removes [of "cmd0\<lparr>CmdForget.Last := 1, DryRun := True\<rparr>" env0 "[''aa'']" store0]
  by simp

lemma forget_args_events:
  "forget_args env dry args st = (err, st', evs) \<Longrightarrow> list_all is_args_event evs"
  by (induction args arbitrary: err st st' evs)
     (auto split: sum.splits prod.splits option.splits if_splits)





subsection \<open>The repository lock\<close>



subsection \<open>Empty policy\<close>

lemma args_event_not_report: "is_args_event e \<Longrightarrow> \<not> is_report e"
  by (cases e) simp_all

text \<open>
  C3: with an empty policy (every count 0 and no keep-tag) \<open>Execute\<close> stops after
  the loop over the identifiers given as arguments: the snapshots are never
  loaded, nothing is reported, and the outcome (error, repository and trace) is
  that of the loop over the arguments between the lock and the unlock; it is
  success when that loop succeeds.
\<close>

theorem empty_policy_stops:
  assumes "Empty (policy_of cmd)"
  shows "EvLoadAllSnapshots \<notin> set (trace_of (Execute env cmd args st)) \<and>
         \<not> list_ex is_report (trace_of (Execute env cmd args st)) \<and>
         (OpenRepository env = None \<and> lockRepoExclusive env st = None \<and> LoadIndex env st = None \<longrightarrow>
            Execute env cmd args st =
              (case forget_args env (DryRun cmd) args st of
                 (err, st1, evs) \<Rightarrow>
                   (err, st1, [EvOpenRepository, EvLockRepoExclusive, EvLoadIndex] @ evs @ [EvUnlockRepo])))"
proof -
  obtain e1 s1 t1 where fa: "forget_args env (DryRun cmd) args st = (e1, s1, t1)"
    by (cases "forget_args env (DryRun cmd) args st")
  from forget_args_events [OF fa]
  have "EvLoadAllSnapshots \<notin> set t1" "\<forall>e\<in>set t1. \<not> is_report e"
    by (auto simp: list_all_iff dest: args_event_not_report)
  with fa assms show ?thesis
    by (auto simp: Execute_def Execute_locked_def outcome_simps list_ex_iff
             split: option.splits)
qed


theorem empty_policy_stops_witness:
  "Empty (policy_of cmd0) \<and>
   OpenRepository env0 = None \<and> lockRepoExclusive env0 store0 = None \<and> LoadIndex env0 store0 = None \<and>
   Execute env0 cmd0 [''cc''] store0 =
     (None, [snA, snB, snD],
      [EvOpenRepository, EvLockRepoExclusive, EvLoadIndex, EvFindSnapshot ''cc'', EvRemove ''cc33'',
       EvVerbosef ''removed snapshot %v\<newline>'' [S ''cc33''], EvUnlockRepo])"
proof -
  have e: "Empty (policy_of cmd0)"
    by (simp add: Empty_def policy_of_def cmd0_def)
  have h: "OpenRepository env0 = None \<and> lockRepoExclusive env0 store0 = None \<and> LoadIndex env0 store0 = None"
    by (simp add: env0_def)
  have a: "forget_args env0 (DryRun cmd0) [''cc''] store0 =
             (None, [snA, snB, snD],
              [EvFindSnapshot ''cc'', EvRemove ''cc33'',
               EvVerbosef ''removed snapshot %v\<newline>'' [S ''cc33'']])"
    by (simp add: env0_def cmd0_def store0_def snA_def snB_def snC_def snD_def)
  from empty_policy_stops [OF e, of env0 "[''cc'']" store0] h a e show ?thesis
    by simp
qed

subsection \<open>Identifiers given as arguments\<close>

lemma forget_args_append:
  "forget_args env dry (pre @ post) st =
     (case forget_args env dry pre st of
        (Some err, st1, evs1) \<Rightarrow> (Some err, st1, evs1)
      | (None, st1, evs1) \<Rightarrow>
          (case forget_args env dry post st1 of
             (err, st2, evs2) \<Rightarrow> (err, st2, evs1 @ evs2)))"
  by (induction pre arbitrary: st)
     (auto split: sum.splits prod.splits option.splits)

text \<open>
  C6: the identifiers given as arguments are processed in order, and what happens
  to one of them decides the whole command. Once the arguments before \<open>s\<close> have
  gone through, \<open>s\<close> is resolved. When that fails, \<open>Execute\<close> returns that error
  at once: the trace ends with the failed lookup and the deferred unlock, the
  repository is as the earlier arguments left it, and neither a later argument
  nor the policy stage is reached. When it resolves and this is not a dry run,
  the snapshot is removed at once and "removed snapshot" is reported; a failing
  removal ends the command with its error in the same way. In a dry run only
  "would removed snapshot" is reported and the repository is not touched. The
  loop sees the dry-run flag only, neither the policy nor the filters: the
  outcome of \<open>Execute\<close> is the error of the loop when it has one, and otherwise
  the policy stage run on the repository the loop has left, the events of the
  loop standing between the loading of the index and everything later.
\<close>

theorem explicit_identifiers:
  assumes "forget_args env dry pre st = (None, st1, evs1)"
  shows "forget_args env dry (pre @ s # post) st =
           (case FindSnapshot env st1 s of
              Inl err \<Rightarrow> (Some err, st1, evs1 @ [EvFindSnapshot s])
            | Inr sid \<Rightarrow>
                if dry then
                  (case forget_args env dry post st1 of
                     (err, st2, evs2) \<Rightarrow>
                       (err, st2,
                        evs1 @ [EvFindSnapshot s,
                                EvVerbosef ''would removed snapshot %v\<newline>'' [S (Str env sid)]] @ evs2))
                else
                  (case Remove env st1 sid of
                     (Some err, st2) \<Rightarrow> (Some err, st2, evs1 @ [EvFindSnapshot s, EvRemove sid])
                   | (None, st2) \<Rightarrow>
                       (case forget_args env dry post st2 of
                          (err, st3, evs3) \<Rightarrow>
                            (err, st3,
                             evs1 @ [EvFindSnapshot s, EvRemove sid,
                                     EvVerbosef ''removed snapshot %v\<newline>'' [S (Str env sid)]] @ evs3)))) \<and>
         (\<forall>cmd::CmdForget.
            DryRun cmd = dry \<and> OpenRepository env = None \<and> lockRepoExclusive env st = None \<and>
            LoadIndex env st = None \<longrightarrow>
            (\<forall>err. FindSnapshot env st1 s = Inl err \<longrightarrow>
               Execute env cmd (pre @ s # post) st =
                 (Some err, st1,
                  [EvOpenRepository, EvLockRepoExclusive, EvLoadIndex] @ evs1 @
                  [EvFindSnapshot s, EvUnlockRepo])) \<and>
            (\<forall>sid err st2.
               \<not> dry \<and> FindSnapshot env st1 s = Inr sid \<and> Remove env st1 sid = (Some err, st2) \<longrightarrow>
               Execute env cmd (pre @ s # post) st =
                 (Some err, st2,
                  [EvOpenRepository, EvLockRepoExclusive, EvLoadIndex] @ evs1 @
                  [EvFindSnapshot s, EvRemove sid, EvUnlockRepo])) \<and>
            Execute env cmd (pre @ s # post) st =
              (case forget_args env dry (pre @ s # post) st of
                 (Some err, st', evs) \<Rightarrow>
                   (Some err, st',
                    [EvOpenRepository, EvLockRepoExclusive, EvLoadIndex] @ evs @ [EvUnlockRepo])
               | (None, st', evs) \<Rightarrow>
                   if Empty (policy_of cmd) then
                     (None, st',
                      [EvOpenRepository, EvLockRepoExclusive, EvLoadIndex] @ evs @ [EvUnlockRepo])
                   else
                     (case LoadAllSnapshots env st' of
                        Inl err \<Rightarrow>
                          (Some err, st',
                           [EvOpenRepository, EvLockRepoExclusive, EvLoadIndex] @ evs @
                           [EvLoadAllSnapshots, EvUnlockRepo])
                      | Inr snapshots \<Rightarrow>
                          (case forget_groups env dry (policy_of cmd)
                                  (range_order env (group_snapshots cmd snapshots [])) st' of
                             (err, st2, evs2) \<Rightarrow>
                               (err, st2,
                                [EvOpenRepository, EvLockRepoExclusive, EvLoadIndex] @ evs @
                                [EvLoadAllSnapshots] @ evs2 @ [EvUnlockRepo])))))"
proof -
  have step: "forget_args env dry (pre @ s # post) st =
           (case FindSnapshot env st1 s of
              Inl err \<Rightarrow> (Some err, st1, evs1 @ [EvFindSnapshot s])
            | Inr sid \<Rightarrow>
                if dry then
                  (case forget_args env dry post st1 of
                     (err, st2, evs2) \<Rightarrow>
                       (err, st2,
                        evs1 @ [EvFindSnapshot s,
                                EvVerbosef ''would removed snapshot %v\<newline>'' [S (Str env sid)]] @ evs2))
                else
                  (case Remove env st1 sid of
                     (Some err, st2) \<Rightarrow> (Some err, st2, evs1 @ [EvFindSnapshot s, EvRemove sid])
                   | (None, st2) \<Rightarrow>
                       (case forget_args env dry post st2 of
                          (err, st3, evs3) \<Rightarrow>
                            (err, st3,
                             evs1 @ [EvFindSnapshot s, EvRemove sid,
                                     EvVerbosef ''removed snapshot %v\<newline>'' [S (Str env sid)]] @ evs3))))"
    using assms
    by (simp add: forget_args_append split: sum.splits prod.splits option.splits)
  have whole: "Execute env cmd (pre @ s # post) st =
              (case forget_args env dry (pre @ s # post) st of
                 (Some err, st', evs) \<Rightarrow>
                   (Some err, st',
                    [EvOpenRepository, EvLockRepoExclusive, EvLoadIndex] @ evs @ [EvUnlockRepo])
               | (None, st', evs) \<Rightarrow>
                   if Empty (policy_of cmd) then
                     (None, st',
                      [EvOpenRepository, EvLockRepoExclusive, EvLoadIndex] @ evs @ [EvUnlockRepo])
                   else
                     (case LoadAllSnapshots env st' of
                        Inl err \<Rightarrow>
                          (Some err, st',
                           [EvOpenRepository, EvLockRepoExclusive, EvLoadIndex] @ evs @
                           [EvLoadAllSnapshots, EvUnlockRepo])
                      | Inr snapshots \<Rightarrow>
                          (case forget_groups env dry (policy_of cmd)
                                  (range_order env (group_snapshots cmd snapshots [])) st' of
                             (err, st2, evs2) \<Rightarrow>
                               (err, st2,
                                [EvOpenRepository, EvLockRepoExclusive, EvLoadIndex] @ evs @
                                [EvLoadAllSnapshots] @ evs2 @ [EvUnlockRepo]))))"
    if c: "DryRun cmd = dry \<and> OpenRepository env = None \<and> lockRepoExclusive env st = None \<and>
           LoadIndex env st = None" for cmd :: CmdForget
  proof -
    obtain e2 s2 t2 where fa: "forget_args env dry (pre @ s # post) st = (e2, s2, t2)"
      by (cases "forget_args env dry (pre @ s # post) st")
    from c have d: "DryRun cmd = dry" by simp
    show ?thesis
      unfolding fa
      using c fa [folded d]
      by (cases e2)
         (simp_all add: Execute_def Execute_locked_def split: sum.splits prod.splits)
  qed
  have lookup: "Execute env cmd (pre @ s # post) st =
                 (Some err, st1,
                  [EvOpenRepository, EvLockRepoExclusive, EvLoadIndex] @ evs1 @
                  [EvFindSnapshot s, EvUnlockRepo])"
    if c: "DryRun cmd = dry \<and> OpenRepository env = None \<and> lockRepoExclusive env st = None \<and>
           LoadIndex env st = None"
      and f: "FindSnapshot env st1 s = Inl err" for cmd :: CmdForget and err
  proof -
    from step f have "forget_args env dry (pre @ s # post) st =
                        (Some err, st1, evs1 @ [EvFindSnapshot s])"
      by simp
    with whole [OF c] show ?thesis by simp
  qed
  have removal: "Execute env cmd (pre @ s # post) st =
                 (Some err, st2,
                  [EvOpenRepository, EvLockRepoExclusive, EvLoadIndex] @ evs1 @
                  [EvFindSnapshot s, EvRemove sid, EvUnlockRepo])"
    if c: "DryRun cmd = dry \<and> OpenRepository env = None \<and> lockRepoExclusive env st = None \<and>
           LoadIndex env st = None"
      and f: "\<not> dry \<and> FindSnapshot env st1 s = Inr sid \<and> Remove env st1 sid = (Some err, st2)"
    for cmd :: CmdForget and sid err st2
  proof -
    from step f have "forget_args env dry (pre @ s # post) st =
                        (Some err, st2, evs1 @ [EvFindSnapshot s, EvRemove sid])"
      by simp
    with whole [OF c] show ?thesis by simp
  qed
  from step whole lookup removal show ?thesis
    by blast
qed

theorem explicit_identifiers_witness:
  "forget_args env0 False [''cc''] store0 =
     (None, [snA, snB, snD],
      [EvFindSnapshot ''cc'', EvRemove ''cc33'',
       EvVerbosef ''removed snapshot %v\<newline>'' [S ''cc33'']]) \<and>
   DryRun cmd1 = False \<and> OpenRepository env0 = None \<and> lockRepoExclusive env0 store0 = None \<and>
   LoadIndex env0 store0 = None \<and> \<not> Empty (policy_of cmd1) \<and>
   FindSnapshot env0 [snA, snB, snD] ''zz'' = Inl (Error ''no unique snapshot'') \<and>
   forget_args env0 False ([''cc''] @ ''zz'' # [''dd'']) store0 =
     (Some (Error ''no unique snapshot''), [snA, snB, snD],
      [EvFindSnapshot ''cc'', EvRemove ''cc33'',
       EvVerbosef ''removed snapshot %v\<newline>'' [S ''cc33'']] @ [EvFindSnapshot ''zz'']) \<and>
   Execute env0 cmd1 ([''cc''] @ ''zz'' # [''dd'']) store0 =
     (Some (Error ''no unique snapshot''), [snA, snB, snD],
      [EvOpenRepository, EvLockRepoExclusive, EvLoadIndex] @
      [EvFindSnapshot ''cc'', EvRemove ''cc33'',
       EvVerbosef ''removed snapshot %v\<newline>'' [S ''cc33'']] @
      [EvFindSnapshot ''zz'', EvUnlockRepo]) \<and>
   FindSnapshot env0 [snA, snB, snD] ''aa'' = Inr ''aa11'' \<and>
   Remove env0 [snA, snB, snD] ''aa11'' = (Some (Error ''remove failed''), [snA, snB, snD]) \<and>
   Execute env0 cmd1 ([''cc''] @ ''aa'' # [''dd'']) store0 =
     (Some (Error ''remove failed''), [snA, snB, snD],
      [EvOpenRepository, EvLockRepoExclusive, EvLoadIndex] @
      [EvFindSnapshot ''cc'', EvRemove ''cc33'',
       EvVerbosef ''removed snapshot %v\<newline>'' [S ''cc33'']] @
      [EvFindSnapshot ''aa'', EvRemove ''aa11'', EvUnlockRepo])"
proof -
  have h: "forget_args env0 False [''cc''] store0 =
     (None, [snA, snB, snD],
      [EvFindSnapshot ''cc'', EvRemove ''cc33'',
       EvVerbosef ''removed snapshot %v\<newline>'' [S ''cc33'']])"
    by (simp add: env0_def store0_def snA_def snB_def snC_def snD_def)
  have f: "FindSnapshot env0 [snA, snB, snD] ''zz'' = Inl (Error ''no unique snapshot'')"
    by (simp add: env0_def snA_def snB_def snD_def)
  have g: "FindSnapshot env0 [snA, snB, snD] ''aa'' = Inr ''aa11''"
    by (simp add: env0_def snA_def snB_def snD_def)
  have r: "Remove env0 [snA, snB, snD] ''aa11'' = (Some (Error ''remove failed''), [snA, snB, snD])"
    by (simp add: env0_def)
  have c: "DryRun cmd1 = False \<and> OpenRepository env0 = None \<and>
           lockRepoExclusive env0 store0 = None \<and> LoadIndex env0 store0 = None"
    by (simp add: env0_def cmd1_def cmd0_def)
  have p: "\<not> Empty (policy_of cmd1)"
    by (simp add: cmd1_def cmd0_def Empty_def policy_of_def)
  note t = explicit_identifiers [OF h, of "''zz''" "[''dd'']"]
  note u = explicit_identifiers [OF h, of "''aa''" "[''dd'']"]
  have a: "forget_args env0 False ([''cc''] @ ''zz'' # [''dd'']) store0 =
     (Some (Error ''no unique snapshot''), [snA, snB, snD],
      [EvFindSnapshot ''cc'', EvRemove ''cc33'',
       EvVerbosef ''removed snapshot %v\<newline>'' [S ''cc33'']] @ [EvFindSnapshot ''zz''])"
    using conjunct1 [OF t] unfolding f by (simp only: sum.case)
  have b: "Execute env0 cmd1 ([''cc''] @ ''zz'' # [''dd'']) store0 =
     (Some (Error ''no unique snapshot''), [snA, snB, snD],
      [EvOpenRepository, EvLockRepoExclusive, EvLoadIndex] @
      [EvFindSnapshot ''cc'', EvRemove ''cc33'',
       EvVerbosef ''removed snapshot %v\<newline>'' [S ''cc33'']] @
      [EvFindSnapshot ''zz'', EvUnlockRepo])"
    using conjunct2 [OF t] c f by blast
  have d: "Execute env0 cmd1 ([''cc''] @ ''aa'' # [''dd'']) store0 =
     (Some (Error ''remove failed''), [snA, snB, snD],
      [EvOpenRepository, EvLockRepoExclusive, EvLoadIndex] @
      [EvFindSnapshot ''cc'', EvRemove ''cc33'',
       EvVerbosef ''removed snapshot %v\<newline>'' [S ''cc33'']] @
      [EvFindSnapshot ''aa'', EvRemove ''aa11'', EvUnlockRepo])"
    using conjunct2 [OF u] c g r by blast
  from h c p f a b g r d show ?thesis
    by blast
qed

subsection \<open>Removal group by group\<close>

lemma remove_snapshots_append:
  "remove_snapshots env (r1 @ r2) st =
     (case remove_snapshots env r1 st of
        (Some err, st1, evs1) \<Rightarrow> (Some err, st1, evs1)
      | (None, st1, evs1) \<Rightarrow>
          (case remove_snapshots env r2 st1 of
             (err, st2, evs2) \<Rightarrow> (err, st2, evs1 @ evs2)))"
  by (induction r1 arbitrary: st)
     (auto split: prod.splits option.splits)

lemma remove_snapshots_ok:
  "remove_snapshots env r st = (None, st', evs) \<Longrightarrow>
     evs = map (EvRemove \<circ> ID) r \<and> st' = foldl (\<lambda>s sn. snd (Remove env s (ID sn))) st r"
  by (induction r arbitrary: st evs)
     (auto split: prod.splits option.splits)

lemma forget_groups_append:
  "forget_groups env dry policy (pre @ post) st =
     (case forget_groups env dry policy pre st of
        (Some err, st1, evs1) \<Rightarrow> (Some err, st1, evs1)
      | (None, st1, evs1) \<Rightarrow>
          (case forget_groups env dry policy post st1 of
             (err, st2, evs2) \<Rightarrow> (err, st2, evs1 @ evs2)))"
proof (induction pre arbitrary: st)
  case Nil
  then show ?case by (simp split: prod.splits option.splits)
next
  case (Cons g pre)
  obtain k grp where g: "g = (k, grp)" by (cases g)
  obtain keep remove where ap: "ApplyPolicy env grp policy = (keep, remove)"
    by (cases "ApplyPolicy env grp policy")
  show ?case
  proof (cases dry)
    case True
    with Cons.IH [of st] show ?thesis
      by (auto simp: g ap split: prod.splits option.splits)
  next
    case False
    obtain e0 s0 t0 where rm: "remove_snapshots env remove st = (e0, s0, t0)"
      by (cases "remove_snapshots env remove st")
    show ?thesis
    proof (cases e0)
      case None
      with Cons.IH [of s0] show ?thesis
        by (auto simp: g ap False rm split: prod.splits option.splits)
    next
      case (Some e)
      then show ?thesis
        by (simp add: g ap False rm)
    qed
  qed
qed

lemma forget_groups_failure:
  assumes pre: "forget_groups env False policy pre st = (None, st1, evs1)"
      and ap: "ApplyPolicy env grp policy = (keep, remove)"
      and rm: "remove = r1 @ sn # r2"
      and ok: "remove_snapshots env r1 st1 = (None, st2, evs2)"
      and fail: "Remove env st2 (ID sn) = (Some err, st3)"
  shows "forget_groups env False policy (pre @ (k, grp) # post) st =
           (Some err, st3,
            evs1 @ report env k keep remove @ map (EvRemove \<circ> ID) r1 @ [EvRemove (ID sn)])"
proof -
  from remove_snapshots_ok [OF ok] have evs2: "evs2 = map (EvRemove \<circ> ID) r1" by simp
  have "remove_snapshots env remove st1 = (Some err, st3, evs2 @ [EvRemove (ID sn)])"
    by (simp add: rm remove_snapshots_append ok fail)
  then show ?thesis
    by (simp add: forget_groups_append pre ap evs2)
qed

text \<open>
  C7: when not a dry run, the remove-set of a group is removed one snapshot after
  the other, and the first removal that fails ends the whole command with that
  error. Here the arguments and the groups \<open>pre\<close> have gone through, the
  snapshots \<open>r1\<close> of the group's remove-set have been removed, and the removal of
  \<open>sn\<close> fails: \<open>Execute\<close> returns that error; the repository is the one left by
  the removals done so far (for the arguments, for the earlier groups and for
  \<open>r1\<close>) and the failing call, nothing is put back; after the failing call only
  the unlock happens, so the rest \<open>r2\<close> of the remove-set and the later groups
  \<open>post\<close> are not touched.
\<close>

theorem group_removal_failure_aborts:
  assumes "OpenRepository env = None" and "lockRepoExclusive env st0 = None"
      and "LoadIndex env st0 = None"
      and "\<not> DryRun cmd" and "\<not> Empty (policy_of cmd)"
      and "forget_args env False args st0 = (None, st, evs0)"
      and "LoadAllSnapshots env st = Inr snapshots"
      and "range_order env (group_snapshots cmd snapshots []) = pre @ (k, grp) # post"
      and "forget_groups env False (policy_of cmd) pre st = (None, st1, evs1)"
      and "ApplyPolicy env grp (policy_of cmd) = (keep, r1 @ sn # r2)"
      and "remove_snapshots env r1 st1 = (None, st2, evs2)"
      and "Remove env st2 (ID sn) = (Some err, st3)"
  shows "Execute env cmd args st0 =
           (Some err, st3,
            [EvOpenRepository, EvLockRepoExclusive, EvLoadIndex] @ evs0 @ [EvLoadAllSnapshots] @
            evs1 @ report env k keep (r1 @ sn # r2) @ map (EvRemove \<circ> ID) r1 @
            [EvRemove (ID sn), EvUnlockRepo]) \<and>
         st2 = foldl (\<lambda>s x. snd (Remove env s (ID x))) st1 r1"
proof -
  have "forget_groups env False (policy_of cmd) (pre @ (k, grp) # post) st =
           (Some err, st3,
            evs1 @ report env k keep (r1 @ sn # r2) @ map (EvRemove \<circ> ID) r1 @ [EvRemove (ID sn)])"
    using assms(9-12) by (intro forget_groups_failure) simp_all
  with assms(1-8) remove_snapshots_ok [OF assms(11)] show ?thesis
    by (simp add: Execute_def Execute_locked_def)
qed

theorem group_removal_failure_aborts_witness:
  "OpenRepository env0 = None \<and> lockRepoExclusive env0 store0 = None \<and>
   LoadIndex env0 store0 = None \<and> \<not> DryRun cmd1 \<and> \<not> Empty (policy_of cmd1) \<and>
   forget_args env0 False [''cc''] store0 =
     (None, [snA, snB, snD],
      [EvFindSnapshot ''cc'', EvRemove ''cc33'',
       EvVerbosef ''removed snapshot %v\<newline>'' [S ''cc33'']]) \<and>
   LoadAllSnapshots env0 [snA, snB, snD] = Inr [snA, snB, snD] \<and>
   range_order env0 (group_snapshots cmd1 [snA, snB, snD] []) =
     [(beta_none, [snD])] @ (alpha_home, [snA, snB]) # [] \<and>
   forget_groups env0 False (policy_of cmd1) [(beta_none, [snD])] [snA, snB, snD] =
     (None, [snA, snB], report env0 beta_none [] [snD] @ [EvRemove ''dd44'']) \<and>
   ApplyPolicy env0 [snA, snB] (policy_of cmd1) = ([], [snB] @ snA # []) \<and>
   remove_snapshots env0 [snB] [snA, snB] = (None, [snA], [EvRemove ''bb22'']) \<and>
   Remove env0 [snA] (ID snA) = (Some (Error ''remove failed''), [snA]) \<and>
   Execute env0 cmd1 [''cc''] store0 =
     (Some (Error ''remove failed''), [snA],
      [EvOpenRepository, EvLockRepoExclusive, EvLoadIndex] @
      [EvFindSnapshot ''cc'', EvRemove ''cc33'',
       EvVerbosef ''removed snapshot %v\<newline>'' [S ''cc33'']] @ [EvLoadAllSnapshots] @
      (report env0 beta_none [] [snD] @ [EvRemove ''dd44'']) @
      report env0 alpha_home [] ([snB] @ snA # []) @ map (EvRemove \<circ> ID) [snB] @
      [EvRemove (ID snA), EvUnlockRepo])"
proof -
  have h1: "OpenRepository env0 = None" by (simp add: env0_def)
  have h2: "lockRepoExclusive env0 store0 = None" by (simp add: env0_def)
  have h3: "LoadIndex env0 store0 = None" by (simp add: env0_def)
  have h4: "\<not> DryRun cmd1" by (simp add: cmd1_def cmd0_def)
  have h5: "\<not> Empty (policy_of cmd1)" by (simp add: cmd1_def cmd0_def Empty_def policy_of_def)
  have h6: "forget_args env0 False [''cc''] store0 =
     (None, [snA, snB, snD],
      [EvFindSnapshot ''cc'', EvRemove ''cc33'',
       EvVerbosef ''removed snapshot %v\<newline>'' [S ''cc33'']])"
    by (simp add: demo_defs)
  have h7: "LoadAllSnapshots env0 [snA, snB, snD] = Inr [snA, snB, snD]"
    by (simp add: env0_def)
  have h8: "range_order env0 (group_snapshots cmd1 [snA, snB, snD] []) =
     [(beta_none, [snD])] @ (alpha_home, [snA, snB]) # []"
    by (simp add: demo_defs HasTags_def key_of_def group_lookup_def)
  have e1: "ApplyPolicy env0 [snD] (policy_of cmd1) = ([], [snD])"
    by code_simp
  have h9: "forget_groups env0 False (policy_of cmd1) [(beta_none, [snD])] [snA, snB, snD] =
     (None, [snA, snB], report env0 beta_none [] [snD] @ [EvRemove ''dd44''])"
    by (simp add: e1) (simp add: demo_defs)
  have h10: "ApplyPolicy env0 [snA, snB] (policy_of cmd1) = ([], [snB] @ snA # [])"
    by code_simp
  have h11: "remove_snapshots env0 [snB] [snA, snB] = (None, [snA], [EvRemove ''bb22''])"
    by (simp add: demo_defs)
  have h12: "Remove env0 [snA] (ID snA) = (Some (Error ''remove failed''), [snA])"
    by (simp add: demo_defs)
  note t = group_removal_failure_aborts [OF h1 h2 h3 h4 h5 h6 h7 h8 h9 h10 h11 h12]
  from h1 h2 h3 h4 h5 h6 h7 h8 h9 h10 h11 h12 conjunct1 [OF t] show ?thesis
    by blast
qed

subsection \<open>The report\<close>

lemma table_rows_append: "table_rows env (xs @ ys) = table_rows env xs @ table_rows env ys"
  by (induction xs) simp_all

lemma table_rows_filter:
  "table_rows env sns = table_rows env (filter (\<lambda>sn. Paths sn \<noteq> []) sns)"
  by (induction sns) simp_all

text \<open>
  C9: a snapshot without paths adds no row to a printed table: printing a list
  with it gives the same table as printing the list without it, and the tables of
  a report are those of the snapshots that have paths. The counts of the report
  are the lengths of the whole keep and remove lists, so the snapshot is counted.
  It is removed like any other: when the snapshots before it in the remove-set
  have been removed, \<open>Remove\<close> is called for it next.
\<close>

theorem empty_paths_not_printed:
  assumes "Paths sn = []"
  shows "printSnapshots env (xs @ sn # ys) = printSnapshots env (xs @ ys) \<and>
         report env k keep remove =
           [EvPrintf ''snapshots for host %v, directories %v:\<newline>\<newline>'' [S (key.Hostname k), S (Dirs k)],
            EvPrintf ''keep %d snapshots:\<newline>'' [I (int (length keep))],
            printSnapshots env (filter (\<lambda>x. Paths x \<noteq> []) keep),
            EvPrintf ''\<newline>'' [],
            EvPrintf ''remove %d snapshots:\<newline>'' [I (int (length remove))],
            printSnapshots env (filter (\<lambda>x. Paths x \<noteq> []) remove),
            EvPrintf ''\<newline>'' []] \<and>
         (\<forall>st st1 evs1. remove_snapshots env r1 st = (None, st1, evs1) \<longrightarrow>
            take (Suc (length r1)) (trace_of (remove_snapshots env (r1 @ sn # r2) st)) =
              map (EvRemove \<circ> ID) (r1 @ [sn]))"
proof (intro conjI allI impI)
  show "printSnapshots env (xs @ sn # ys) = printSnapshots env (xs @ ys)"
    using assms by (simp add: printSnapshots_def table_rows_append)
next
  show "report env k keep remove =
           [EvPrintf ''snapshots for host %v, directories %v:\<newline>\<newline>'' [S (key.Hostname k), S (Dirs k)],
            EvPrintf ''keep %d snapshots:\<newline>'' [I (int (length keep))],
            printSnapshots env (filter (\<lambda>x. Paths x \<noteq> []) keep),
            EvPrintf ''\<newline>'' [],
            EvPrintf ''remove %d snapshots:\<newline>'' [I (int (length remove))],
            printSnapshots env (filter (\<lambda>x. Paths x \<noteq> []) remove),
            EvPrintf ''\<newline>'' []]"
    using table_rows_filter [of env keep] table_rows_filter [of env remove]
    by (simp add: report_def printSnapshots_def)
next
  fix st st1 evs1
  assume ok: "remove_snapshots env r1 st = (None, st1, evs1)"
  from remove_snapshots_ok [OF ok] have evs1: "evs1 = map (EvRemove \<circ> ID) r1" by simp
  show "take (Suc (length r1)) (trace_of (remove_snapshots env (r1 @ sn # r2) st)) =
          map (EvRemove \<circ> ID) (r1 @ [sn])"
    by (simp add: remove_snapshots_append ok evs1 outcome_simps split: prod.splits option.splits)
qed

theorem empty_paths_not_printed_witness:
  "Paths snC = [] \<and>
   printSnapshots env0 ([snA] @ snC # [snB]) = printSnapshots env0 ([snA] @ [snB]) \<and>
   report env0 beta_none [snD] [snC] =
     [EvPrintf ''snapshots for host %v, directories %v:\<newline>\<newline>'' [S ''beta'', S ''''],
      EvPrintf ''keep %d snapshots:\<newline>'' [I 1],
      printSnapshots env0 [],
      EvPrintf ''\<newline>'' [],
      EvPrintf ''remove %d snapshots:\<newline>'' [I 1],
      printSnapshots env0 [],
      EvPrintf ''\<newline>'' []] \<and>
   remove_snapshots env0 [snD] store0 = (None, [snA, snB, snC], [EvRemove ''dd44'']) \<and>
   take (Suc (length [snD])) (trace_of (remove_snapshots env0 ([snD] @ snC # [snB]) store0)) =
     [EvRemove ''dd44'', EvRemove ''cc33'']"
proof -
  have h: "Paths snC = []" by (simp add: snC_def)
  have r: "remove_snapshots env0 [snD] store0 = (None, [snA, snB, snC], [EvRemove ''dd44''])"
    by (simp add: demo_defs)
  note t = empty_paths_not_printed [OF h, of env0 "[snA]" "[snB]" beta_none "[snD]" "[snC]" "[snD]" "[snB]"]
  from t have a: "printSnapshots env0 ([snA] @ snC # [snB]) = printSnapshots env0 ([snA] @ [snB])"
    by (rule conjunct1)
  from t have b: "report env0 beta_none [snD] [snC] =
     [EvPrintf ''snapshots for host %v, directories %v:\<newline>\<newline>'' [S ''beta'', S ''''],
      EvPrintf ''keep %d snapshots:\<newline>'' [I 1],
      printSnapshots env0 [],
      EvPrintf ''\<newline>'' [],
      EvPrintf ''remove %d snapshots:\<newline>'' [I 1],
      printSnapshots env0 [],
      EvPrintf ''\<newline>'' []]"
    by (simp add: beta_none_def snC_def snD_def)
  from t r have c: "take (Suc (length [snD])) (trace_of (remove_snapshots env0 ([snD] @ snC # [snB]) store0)) =
     map (EvRemove \<circ> ID) ([snD] @ [snC])"
    by blast
  have d: "map (EvRemove \<circ> ID) ([snD] @ [snC]) = [EvRemove ''dd44'', EvRemove ''cc33'']"
    by (simp add: snC_def snD_def)
  from h a b r c d show ?thesis
    by (simp only: simp_thms)
qed

lemma table_rows_explicit:
  "table_rows env sns =
     concat (map (\<lambda>sn.
        [Str env (ID sn), Format env (Time sn), Snapshot.Hostname sn,
         (if Snapshot.Tags sn = [] then '''' else hd (Snapshot.Tags sn)), hd (Paths sn)] #
        map (\<lambda>i. ['''', '''', '''',
                   (if i < length (Snapshot.Tags sn) then Snapshot.Tags sn ! i else ''''),
                   (if i < length (Paths sn) then Paths sn ! i else '''')])
            [1..<max (length (Paths sn)) (length (Snapshot.Tags sn))])
       (filter (\<lambda>sn. Paths sn \<noteq> []) sns))"
proof (induction sns)
  case Nil
  then show ?case by simp
next
  case (Cons sn sns)
  show ?case
  proof (cases "Paths sn = []")
    case True
    with Cons.IH show ?thesis by simp
  next
    case False
    have "snapshot_rows env sn =
        [Str env (ID sn), Format env (Time sn), Snapshot.Hostname sn,
         (if Snapshot.Tags sn = [] then '''' else hd (Snapshot.Tags sn)), hd (Paths sn)] #
        map (\<lambda>i. ['''', '''', '''',
                   (if i < length (Snapshot.Tags sn) then Snapshot.Tags sn ! i else ''''),
                   (if i < length (Paths sn) then Paths sn ! i else '''')])
            [1..<max (length (Paths sn)) (length (Snapshot.Tags sn))]"
      using False
      by (auto simp: snapshot_rows_def continuation_row_def Let_def max_def hd_conv_nth)
    with False Cons.IH show ?thesis by simp
  qed
qed

text \<open>
  C10: for every group, once the groups before it have gone through, the trace
  continues with the whole report of the group and only then with the removals
  of its remove-set. The report is written out here event by event: the line
  with the group's hostname and directories, the number of kept snapshots and
  their table, the number of removed snapshots and their table. A table has, for
  each snapshot with paths, a row with its identifier, time, hostname, first tag
  and first path, followed by rows for its further tags and paths. What follows
  the report is nothing but removals: when all of them succeed, one \<open>Remove\<close>
  for each snapshot of the remove-set in order, and then the later groups; when
  one fails, the removals up to and including that one, the report being
  complete before them.
\<close>

theorem report_precedes_removal:
  assumes "forget_groups env dry policy pre st = (None, st1, evs1)"
      and "ApplyPolicy env grp policy = (keep, remove)"
  shows "trace_of (forget_groups env dry policy (pre @ (k, grp) # post) st) =
           evs1 @
           [EvPrintf ''snapshots for host %v, directories %v:\<newline>\<newline>'' [S (key.Hostname k), S (Dirs k)],
            EvPrintf ''keep %d snapshots:\<newline>'' [I (int (length keep))],
            EvTableWrite
              \<lparr> Header = ''ID        Date                 Host        Tags        Directory'',
                RowFormat = ''%-8s  %-19s  %-10s  %-10s  %s'',
                Rows = concat (map (\<lambda>sn.
                  [Str env (ID sn), Format env (Time sn), Snapshot.Hostname sn,
                   (if Snapshot.Tags sn = [] then '''' else hd (Snapshot.Tags sn)), hd (Paths sn)] #
                  map (\<lambda>i. ['''', '''', '''',
                             (if i < length (Snapshot.Tags sn) then Snapshot.Tags sn ! i else ''''),
                             (if i < length (Paths sn) then Paths sn ! i else '''')])
                      [1..<max (length (Paths sn)) (length (Snapshot.Tags sn))])
                  (filter (\<lambda>sn. Paths sn \<noteq> []) keep)) \<rparr>,
            EvPrintf ''\<newline>'' [],
            EvPrintf ''remove %d snapshots:\<newline>'' [I (int (length remove))],
            EvTableWrite
              \<lparr> Header = ''ID        Date                 Host        Tags        Directory'',
                RowFormat = ''%-8s  %-19s  %-10s  %-10s  %s'',
                Rows = concat (map (\<lambda>sn.
                  [Str env (ID sn), Format env (Time sn), Snapshot.Hostname sn,
                   (if Snapshot.Tags sn = [] then '''' else hd (Snapshot.Tags sn)), hd (Paths sn)] #
                  map (\<lambda>i. ['''', '''', '''',
                             (if i < length (Snapshot.Tags sn) then Snapshot.Tags sn ! i else ''''),
                             (if i < length (Paths sn) then Paths sn ! i else '''')])
                      [1..<max (length (Paths sn)) (length (Snapshot.Tags sn))])
                  (filter (\<lambda>sn. Paths sn \<noteq> []) remove)) \<rparr>,
            EvPrintf ''\<newline>'' []] @
           (if dry then trace_of (forget_groups env dry policy post st1)
            else (case remove_snapshots env remove st1 of
                    (Some err, st2, evs2) \<Rightarrow> evs2
                  | (None, st2, evs2) \<Rightarrow> evs2 @ trace_of (forget_groups env dry policy post st2))) \<and>
         (\<forall>st2 evs2. remove_snapshots env remove st1 = (None, st2, evs2) \<longrightarrow>
            evs2 = map (EvRemove \<circ> ID) remove) \<and>
         (\<forall>r1 sn r2 st2 evs2 err st3.
            remove = r1 @ sn # r2 \<and> remove_snapshots env r1 st1 = (None, st2, evs2) \<and>
            Remove env st2 (ID sn) = (Some err, st3) \<longrightarrow>
            remove_snapshots env remove st1 =
              (Some err, st3, map (EvRemove \<circ> ID) r1 @ [EvRemove (ID sn)]))"
proof (intro conjI allI impI)
  show "trace_of (forget_groups env dry policy (pre @ (k, grp) # post) st) =
           evs1 @
           [EvPrintf ''snapshots for host %v, directories %v:\<newline>\<newline>'' [S (key.Hostname k), S (Dirs k)],
            EvPrintf ''keep %d snapshots:\<newline>'' [I (int (length keep))],
            EvTableWrite
              \<lparr> Header = ''ID        Date                 Host        Tags        Directory'',
                RowFormat = ''%-8s  %-19s  %-10s  %-10s  %s'',
                Rows = concat (map (\<lambda>sn.
                  [Str env (ID sn), Format env (Time sn), Snapshot.Hostname sn,
                   (if Snapshot.Tags sn = [] then '''' else hd (Snapshot.Tags sn)), hd (Paths sn)] #
                  map (\<lambda>i. ['''', '''', '''',
                             (if i < length (Snapshot.Tags sn) then Snapshot.Tags sn ! i else ''''),
                             (if i < length (Paths sn) then Paths sn ! i else '''')])
                      [1..<max (length (Paths sn)) (length (Snapshot.Tags sn))])
                  (filter (\<lambda>sn. Paths sn \<noteq> []) keep)) \<rparr>,
            EvPrintf ''\<newline>'' [],
            EvPrintf ''remove %d snapshots:\<newline>'' [I (int (length remove))],
            EvTableWrite
              \<lparr> Header = ''ID        Date                 Host        Tags        Directory'',
                RowFormat = ''%-8s  %-19s  %-10s  %-10s  %s'',
                Rows = concat (map (\<lambda>sn.
                  [Str env (ID sn), Format env (Time sn), Snapshot.Hostname sn,
                   (if Snapshot.Tags sn = [] then '''' else hd (Snapshot.Tags sn)), hd (Paths sn)] #
                  map (\<lambda>i. ['''', '''', '''',
                             (if i < length (Snapshot.Tags sn) then Snapshot.Tags sn ! i else ''''),
                             (if i < length (Paths sn) then Paths sn ! i else '''')])
                      [1..<max (length (Paths sn)) (length (Snapshot.Tags sn))])
                  (filter (\<lambda>sn. Paths sn \<noteq> []) remove)) \<rparr>,
            EvPrintf ''\<newline>'' []] @
           (if dry then trace_of (forget_groups env dry policy post st1)
            else (case remove_snapshots env remove st1 of
                    (Some err, st2, evs2) \<Rightarrow> evs2
                  | (None, st2, evs2) \<Rightarrow> evs2 @ trace_of (forget_groups env dry policy post st2)))"
    unfolding table_rows_explicit [of env keep, symmetric]
              table_rows_explicit [of env remove, symmetric]
    using assms
    by (auto simp: forget_groups_append outcome_simps report_def printSnapshots_def
             split: prod.splits option.splits)
next
  fix st2 evs2
  assume "remove_snapshots env remove st1 = (None, st2, evs2)"
  from remove_snapshots_ok [OF this] show "evs2 = map (EvRemove \<circ> ID) remove"
    by simp
next
  fix r1 sn r2 st2 evs2 err st3
  assume a: "remove = r1 @ sn # r2 \<and> remove_snapshots env r1 st1 = (None, st2, evs2) \<and>
             Remove env st2 (ID sn) = (Some err, st3)"
  then have ok: "remove_snapshots env r1 st1 = (None, st2, evs2)" by simp
  from remove_snapshots_ok [OF ok] have "evs2 = map (EvRemove \<circ> ID) r1" by simp
  with a show "remove_snapshots env remove st1 =
                 (Some err, st3, map (EvRemove \<circ> ID) r1 @ [EvRemove (ID sn)])"
    by (simp add: remove_snapshots_append)
qed

theorem report_precedes_removal_witness:
  "forget_groups env0 False (policy_of cmd1) [(beta_none, [snD])] [snA, snB, snD] =
     (None, [snA, snB],
      [EvPrintf ''snapshots for host %v, directories %v:\<newline>\<newline>'' [S ''beta'', S ''''],
       EvPrintf ''keep %d snapshots:\<newline>'' [I 0],
       EvTableWrite
         \<lparr> Header = ''ID        Date                 Host        Tags        Directory'',
           RowFormat = ''%-8s  %-19s  %-10s  %-10s  %s'', Rows = [] \<rparr>,
       EvPrintf ''\<newline>'' [],
       EvPrintf ''remove %d snapshots:\<newline>'' [I 1],
       EvTableWrite
         \<lparr> Header = ''ID        Date                 Host        Tags        Directory'',
           RowFormat = ''%-8s  %-19s  %-10s  %-10s  %s'', Rows = [] \<rparr>,
       EvPrintf ''\<newline>'' [],
       EvRemove ''dd44'']) \<and>
   ApplyPolicy env0 [snA, snB] (policy_of cmd1) = ([], [snB, snA]) \<and>
   [snB, snA] = [snB] @ snA # [] \<and>
   remove_snapshots env0 [snB] [snA, snB] = (None, [snA], [EvRemove ''bb22'']) \<and>
   Remove env0 [snA] (ID snA) = (Some (Error ''remove failed''), [snA]) \<and>
   remove_snapshots env0 [snB, snA] [snA, snB] =
     (Some (Error ''remove failed''), [snA], [EvRemove ''bb22'', EvRemove ''aa11'']) \<and>
   trace_of (forget_groups env0 False (policy_of cmd1)
               ([(beta_none, [snD])] @ (alpha_home, [snA, snB]) # []) [snA, snB, snD]) =
     [EvPrintf ''snapshots for host %v, directories %v:\<newline>\<newline>'' [S ''beta'', S ''''],
      EvPrintf ''keep %d snapshots:\<newline>'' [I 0],
      EvTableWrite
        \<lparr> Header = ''ID        Date                 Host        Tags        Directory'',
          RowFormat = ''%-8s  %-19s  %-10s  %-10s  %s'', Rows = [] \<rparr>,
      EvPrintf ''\<newline>'' [],
      EvPrintf ''remove %d snapshots:\<newline>'' [I 1],
      EvTableWrite
        \<lparr> Header = ''ID        Date                 Host        Tags        Directory'',
          RowFormat = ''%-8s  %-19s  %-10s  %-10s  %s'', Rows = [] \<rparr>,
      EvPrintf ''\<newline>'' [],
      EvRemove ''dd44'',
      EvPrintf ''snapshots for host %v, directories %v:\<newline>\<newline>'' [S ''alpha'', S ''/home''],
      EvPrintf ''keep %d snapshots:\<newline>'' [I 0],
      EvTableWrite
        \<lparr> Header = ''ID        Date                 Host        Tags        Directory'',
          RowFormat = ''%-8s  %-19s  %-10s  %-10s  %s'', Rows = [] \<rparr>,
      EvPrintf ''\<newline>'' [],
      EvPrintf ''remove %d snapshots:\<newline>'' [I 2],
      EvTableWrite
        \<lparr> Header = ''ID        Date                 Host        Tags        Directory'',
          RowFormat = ''%-8s  %-19s  %-10s  %-10s  %s'',
          Rows = [[''bb22'', ''time'', ''alpha'', '''', ''/home''],
                  [''aa11'', ''time'', ''alpha'', ''pin'', ''/home'']] \<rparr>,
      EvPrintf ''\<newline>'' [],
      EvRemove ''bb22'', EvRemove ''aa11'']"
proof -
  have e1: "ApplyPolicy env0 [snD] (policy_of cmd1) = ([], [snD])"
    by code_simp
  have h1: "forget_groups env0 False (policy_of cmd1) [(beta_none, [snD])] [snA, snB, snD] =
     (None, [snA, snB],
      [EvPrintf ''snapshots for host %v, directories %v:\<newline>\<newline>'' [S ''beta'', S ''''],
       EvPrintf ''keep %d snapshots:\<newline>'' [I 0],
       EvTableWrite
         \<lparr> Header = ''ID        Date                 Host        Tags        Directory'',
           RowFormat = ''%-8s  %-19s  %-10s  %-10s  %s'', Rows = [] \<rparr>,
       EvPrintf ''\<newline>'' [],
       EvPrintf ''remove %d snapshots:\<newline>'' [I 1],
       EvTableWrite
         \<lparr> Header = ''ID        Date                 Host        Tags        Directory'',
           RowFormat = ''%-8s  %-19s  %-10s  %-10s  %s'', Rows = [] \<rparr>,
       EvPrintf ''\<newline>'' [],
       EvRemove ''dd44''])"
    by (simp add: e1) (simp add: demo_defs report_def printSnapshots_def)
  have h2: "ApplyPolicy env0 [snA, snB] (policy_of cmd1) = ([], [snB, snA])"
    by code_simp
  have s: "[snB, snA] = [snB] @ snA # []"
    by simp
  have ok: "remove_snapshots env0 [snB] [snA, snB] = (None, [snA], [EvRemove ''bb22''])"
    by (simp add: demo_defs)
  have fail: "Remove env0 [snA] (ID snA) = (Some (Error ''remove failed''), [snA])"
    by (simp add: demo_defs)
  note t = report_precedes_removal [OF h1 h2, of alpha_home "[]"]
  from t s ok fail have r0: "remove_snapshots env0 [snB, snA] [snA, snB] =
     (Some (Error ''remove failed''), [snA], map (EvRemove \<circ> ID) [snB] @ [EvRemove (ID snA)])"
    by blast
  then have r: "remove_snapshots env0 [snB, snA] [snA, snB] =
     (Some (Error ''remove failed''), [snA], [EvRemove ''bb22'', EvRemove ''aa11''])"
    by (simp add: snA_def snB_def)
  define L where
    "L = trace_of (forget_groups env0 False (policy_of cmd1)
               ([(beta_none, [snD])] @ (alpha_home, [snA, snB]) # []) [snA, snB, snD])"
  from conjunct1 [OF t] have "L =
     [EvPrintf ''snapshots for host %v, directories %v:\<newline>\<newline>'' [S ''beta'', S ''''],
      EvPrintf ''keep %d snapshots:\<newline>'' [I 0],
      EvTableWrite
        \<lparr> Header = ''ID        Date                 Host        Tags        Directory'',
          RowFormat = ''%-8s  %-19s  %-10s  %-10s  %s'', Rows = [] \<rparr>,
      EvPrintf ''\<newline>'' [],
      EvPrintf ''remove %d snapshots:\<newline>'' [I 1],
      EvTableWrite
        \<lparr> Header = ''ID        Date                 Host        Tags        Directory'',
          RowFormat = ''%-8s  %-19s  %-10s  %-10s  %s'', Rows = [] \<rparr>,
      EvPrintf ''\<newline>'' [],
      EvRemove ''dd44'',
      EvPrintf ''snapshots for host %v, directories %v:\<newline>\<newline>'' [S ''alpha'', S ''/home''],
      EvPrintf ''keep %d snapshots:\<newline>'' [I 0],
      EvTableWrite
        \<lparr> Header = ''ID        Date                 Host        Tags        Directory'',
          RowFormat = ''%-8s  %-19s  %-10s  %-10s  %s'', Rows = [] \<rparr>,
      EvPrintf ''\<newline>'' [],
      EvPrintf ''remove %d snapshots:\<newline>'' [I 2],
      EvTableWrite
        \<lparr> Header = ''ID        Date                 Host        Tags        Directory'',
          RowFormat = ''%-8s  %-19s  %-10s  %-10s  %s'',
          Rows = [[''bb22'', ''time'', ''alpha'', '''', ''/home''],
                  [''aa11'', ''time'', ''alpha'', ''pin'', ''/home'']] \<rparr>,
      EvPrintf ''\<newline>'' [],
      EvRemove ''bb22'', EvRemove ''aa11'']"
    unfolding r L_def [symmetric]
    by (simp add: env0_def snA_def snB_def alpha_home_def)
  with h1 h2 s ok fail r show ?thesis
    unfolding L_def by (simp only: simp_thms)
qed

subsection \<open>Filtering and grouping\<close>

lemma excluded_code:
  "excluded cmd sn \<longleftrightarrow>
     (CmdForget.Hostname cmd \<noteq> '''' \<and> Snapshot.Hostname sn \<noteq> CmdForget.Hostname cmd) \<or>
     \<not> HasTags sn (CmdForget.Tags cmd)"
  by (auto simp: excluded_def HasTags_def list_all_iff)

lemma group_snapshots_step:
  "group_snapshots cmd (sn # sns) m =
     (if excluded cmd sn then group_snapshots cmd sns m
      else group_snapshots cmd sns (group_store m (key_of sn) (group_lookup m (key_of sn) @ [sn])))"
  by (auto simp: excluded_code Let_def)

lemma grouped_store:
  "mset (grouped (group_store m k (group_lookup m k @ [sn]))) = mset (grouped m) + {#sn#}"
  by (induction m) (auto simp: grouped_def group_lookup_def)

lemma grouped_group_snapshots:
  "mset (grouped (group_snapshots cmd sns m)) =
     mset (grouped m) + mset (filter (\<lambda>sn. \<not> excluded cmd sn) sns)"
proof (induction sns arbitrary: m)
  case Nil
  then show ?case by simp
next
  case (Cons sn sns)
  show ?case
    unfolding group_snapshots_step
    by (simp add: Cons.IH grouped_store)
qed

lemma group_snapshots_filter:
  "group_snapshots cmd (filter (\<lambda>sn. \<not> excluded cmd sn) sns) m = group_snapshots cmd sns m"
proof (induction sns arbitrary: m)
  case Nil
  then show ?case by simp
next
  case (Cons sn sns)
  show ?case
    by (cases "excluded cmd sn")
       (simp_all add: group_snapshots_step Cons.IH del: group_snapshots.simps)
qed

lemma table_rows_env: "table_rows (env\<lparr>LoadAllSnapshots := f\<rparr>) sns = table_rows env sns"
  by (induction sns) (simp_all add: snapshot_rows_def)

lemma report_env: "report (env\<lparr>LoadAllSnapshots := f\<rparr>) k keep remove = report env k keep remove"
  by (simp add: report_def printSnapshots_def table_rows_env)

lemma forget_args_env:
  "forget_args (env\<lparr>LoadAllSnapshots := f\<rparr>) dry args st = forget_args env dry args st"
  by (induction args arbitrary: st dry)
     (simp_all cong: sum.case_cong prod.case_cong option.case_cong if_cong)

lemma remove_snapshots_env:
  "remove_snapshots (env\<lparr>LoadAllSnapshots := f\<rparr>) sns st = remove_snapshots env sns st"
  by (induction sns arbitrary: st)
     (simp_all cong: prod.case_cong option.case_cong)

lemma forget_groups_env:
  "forget_groups (env\<lparr>LoadAllSnapshots := f\<rparr>) dry policy gs st = forget_groups env dry policy gs st"
proof (induction gs arbitrary: st dry)
  case Nil
  then show ?case by simp
next
  case (Cons g gs)
  obtain k grp where g: "g = (k, grp)" by (cases g)
  show ?case
    by (simp add: g Cons.IH report_env remove_snapshots_env
             cong: prod.case_cong option.case_cong if_cong)
qed

text \<open>
  C4: a loaded snapshot takes no part in grouping, evaluation, report and
  removal iff the hostname filter is set and differs from its hostname, or it
  does not carry all the required tags. The snapshots found in the groups are
  exactly the loaded ones that are not excluded, each as often as it was loaded;
  the whole outcome of \<open>Execute\<close> is the one it would have had the excluded
  snapshots never been loaded; and with both filters empty no snapshot is
  excluded.
\<close>

theorem filtered_snapshots_excluded:
  "(sn \<in> set (grouped (group_snapshots cmd snapshots [])) \<longleftrightarrow>
      sn \<in> set snapshots \<and> \<not> excluded cmd sn) \<and>
   mset (grouped (group_snapshots cmd snapshots [])) =
     mset (filter (\<lambda>sn. \<not> excluded cmd sn) snapshots) \<and>
   Execute env cmd args st =
     Execute (env\<lparr>LoadAllSnapshots :=
                    \<lambda>s. map_sum (\<lambda>e. e) (filter (\<lambda>sn. \<not> excluded cmd sn)) (LoadAllSnapshots env s)\<rparr>)
       cmd args st \<and>
   (CmdForget.Hostname cmd = '''' \<and> CmdForget.Tags cmd = [] \<longrightarrow> \<not> excluded cmd sn)"
proof (intro conjI impI)
  have m: "mset (grouped (group_snapshots cmd snapshots [])) =
             mset (filter (\<lambda>sn. \<not> excluded cmd sn) snapshots)"
    unfolding grouped_group_snapshots by (simp add: grouped_def)
  then show "mset (grouped (group_snapshots cmd snapshots [])) =
             mset (filter (\<lambda>sn. \<not> excluded cmd sn) snapshots)" .
  from m have "set (grouped (group_snapshots cmd snapshots [])) =
               set (filter (\<lambda>sn. \<not> excluded cmd sn) snapshots)"
    by (rule mset_eq_setD)
  then show "sn \<in> set (grouped (group_snapshots cmd snapshots [])) \<longleftrightarrow>
      sn \<in> set snapshots \<and> \<not> excluded cmd sn"
    by simp
next
  show "Execute env cmd args st =
     Execute (env\<lparr>LoadAllSnapshots :=
                    \<lambda>s. map_sum (\<lambda>e. e) (filter (\<lambda>sn. \<not> excluded cmd sn)) (LoadAllSnapshots env s)\<rparr>)
       cmd args st"
    by (simp add: Execute_def Execute_locked_def forget_args_env forget_groups_env
                  group_snapshots_filter
             split: option.splits sum.splits prod.splits)
next
  assume "CmdForget.Hostname cmd = '''' \<and> CmdForget.Tags cmd = []"
  then show "\<not> excluded cmd sn"
    by (simp add: excluded_def)
qed

theorem filtered_snapshots_excluded_witness:
  "(snA \<in> set (grouped (group_snapshots cmd2 store0 [])) \<longleftrightarrow>
      snA \<in> set store0 \<and> \<not> excluded cmd2 snA) \<and>
   excluded cmd2 snA \<and> snA \<in> set store0 \<and>
   group_snapshots cmd2 store0 [] = [(beta_none, [snC, snD])] \<and>
   CmdForget.Hostname cmd0 = '''' \<and> CmdForget.Tags cmd0 = [] \<and> \<not> excluded cmd0 snA"
proof -
  have a: "excluded cmd2 snA \<and> snA \<in> set store0"
    by (simp add: excluded_def cmd2_def cmd0_def snA_def store0_def)
  have b: "group_snapshots cmd2 store0 [] = [(beta_none, [snC, snD])]"
    by (simp add: cmd2_def demo_defs HasTags_def key_of_def group_lookup_def)
  have c: "CmdForget.Hostname cmd0 = '''' \<and> CmdForget.Tags cmd0 = []"
    by (simp add: cmd0_def)
  note t1 = filtered_snapshots_excluded [of snA cmd2 store0 env0 "[]" store0]
  note t2 = filtered_snapshots_excluded [of snA cmd0 store0 env0 "[]" store0]
  from conjunct1 [OF t1] a b c t2 show ?thesis
    by blast
qed

text \<open>The map of groups: keys stay distinct, and a key holds the snapshots of that key.\<close>

lemma group_lookup_store:
  "group_lookup (group_store m k list) k' = (if k' = k then list else group_lookup m k')"
  by (induction m) (auto simp: group_lookup_def)

lemma group_lookup_Nil: "group_lookup [] k = []"
  by (simp add: group_lookup_def)

lemma keys_group_store: "fst ` set (group_store m k list) = insert k (fst ` set m)"
proof (induction m)
  case Nil
  then show ?case by simp
next
  case (Cons e m)
  obtain k' l' where e: "e = (k', l')" by (cases e)
  show ?case
  proof (cases "k' = k")
    case True
    then show ?thesis by (simp add: e)
  next
    case False
    then show ?thesis by (simp add: e Cons.IH insert_commute)
  qed
qed

lemma distinct_group_store:
  "distinct (map fst m) \<Longrightarrow> distinct (map fst (group_store m k list))"
proof (induction m)
  case Nil
  then show ?case by simp
next
  case (Cons e m)
  obtain k' l' where e: "e = (k', l')" by (cases e)
  from Cons have d: "distinct (map fst (group_store m k list))" by simp
  from Cons.prems e have "k' \<notin> fst ` set m" by simp
  with d e Cons.prems show ?case
    by (auto simp: keys_group_store)
qed

lemma distinct_group_snapshots:
  "distinct (map fst m) \<Longrightarrow> distinct (map fst (group_snapshots cmd sns m))"
proof (induction sns arbitrary: m)
  case Nil
  then show ?case by simp
next
  case (Cons sn sns)
  then show ?case
    unfolding group_snapshots_step by (simp add: distinct_group_store)
qed

lemma group_lookup_snapshots:
  "group_lookup (group_snapshots cmd sns m) k =
     group_lookup m k @ filter (\<lambda>sn. \<not> excluded cmd sn \<and> key_of sn = k) sns"
proof (induction sns arbitrary: m)
  case Nil
  then show ?case by simp
next
  case (Cons sn sns)
  show ?case
    unfolding group_snapshots_step by (simp add: Cons.IH group_lookup_store)
qed

lemma entry_lookup: "distinct (map fst m) \<Longrightarrow> (k, list) \<in> set m \<Longrightarrow> group_lookup m k = list"
  by (simp add: group_lookup_def)

lemma lookup_entry: "group_lookup m k \<noteq> [] \<Longrightarrow> (k, group_lookup m k) \<in> set m"
  by (auto simp: group_lookup_def split: option.splits dest: map_of_SomeD)

lemma same_group_key:
  assumes "sn1 \<in> set snapshots" and "sn2 \<in> set snapshots"
      and "\<not> excluded cmd sn1" and "\<not> excluded cmd sn2"
  shows "same_group (group_snapshots cmd snapshots []) sn1 sn2 \<longleftrightarrow> key_of sn1 = key_of sn2"
proof
  let ?G = "group_snapshots cmd snapshots []"
  have d: "distinct (map fst ?G)" by (rule distinct_group_snapshots) simp
  have lk: "group_lookup ?G k = filter (\<lambda>sn. \<not> excluded cmd sn \<and> key_of sn = k) snapshots" for k
    by (simp add: group_lookup_snapshots group_lookup_Nil)
  {
    assume "same_group ?G sn1 sn2"
    then obtain k list where kl: "(k, list) \<in> set ?G" "sn1 \<in> set list" "sn2 \<in> set list"
      by (auto simp: same_group_def list_ex_iff)
    from entry_lookup [OF d kl(1)] lk
    have "list = filter (\<lambda>sn. \<not> excluded cmd sn \<and> key_of sn = k) snapshots" by simp
    with kl(2,3) show "key_of sn1 = key_of sn2" by simp
  }
  {
    assume eq: "key_of sn1 = key_of sn2"
    let ?l = "group_lookup ?G (key_of sn1)"
    from assms eq have mem: "sn1 \<in> set ?l" "sn2 \<in> set ?l" by (simp_all add: lk)
    then have "?l \<noteq> []" by auto
    from lookup_entry [OF this] mem show "same_group ?G sn1 sn2"
      by (auto simp: same_group_def list_ex_iff)
  }
qed

lemma colon_split:
  "CHR '':'' \<notin> set a \<Longrightarrow> CHR '':'' \<notin> set b \<Longrightarrow> a @ CHR '':'' # x = b @ CHR '':'' # y \<Longrightarrow>
     a = b \<and> x = y"
proof (induction a arbitrary: b)
  case Nil
  then show ?case by (cases b) auto
next
  case (Cons c a)
  then show ?case by (cases b) auto
qed

lemma Join_colon_free_inj:
  "xs \<noteq> [] \<Longrightarrow> ys \<noteq> [] \<Longrightarrow> \<forall>p\<in>set xs \<union> set ys. CHR '':'' \<notin> set p \<Longrightarrow>
     Join xs '':'' = Join ys '':'' \<Longrightarrow> xs = ys"
proof (induction xs arbitrary: ys)
  case Nil
  then show ?case by simp
next
  case (Cons a xs)
  from Cons.prems(2) obtain b ys' where ys: "ys = b # ys'" by (cases ys) auto
  show ?case
  proof (cases xs)
    case Nil
    with Cons.prems ys show ?thesis
      by (cases ys') auto
  next
    case xs: (Cons a' xs')
    show ?thesis
    proof (cases ys')
      case Nil
      with Cons.prems ys xs show ?thesis by auto
    next
      case ys': (Cons b' ys'')
      from Cons.prems ys xs ys'
      have "a @ CHR '':'' # Join xs '':'' = b @ CHR '':'' # Join ys' '':''"
        and "CHR '':'' \<notin> set a" and "CHR '':'' \<notin> set b"
        by auto
      from colon_split [OF this(2,3,1)] have ab: "a = b" and j: "Join xs '':'' = Join ys' '':''"
        by simp_all
      from Cons.prems ys have "\<forall>p\<in>set xs \<union> set ys'. CHR '':'' \<notin> set p" by auto
      from Cons.IH [OF _ _ this j] xs ys' have "xs = ys'" by simp
      with ab ys show ?thesis by simp
    qed
  qed
qed

text \<open>
  C5, as amended: two loaded snapshots that pass the filters are in the same
  group iff their hostnames are equal and their path lists joined with a colon
  are equal. Equal sets of paths in different orders give different groups
  when no path contains a colon.
\<close>

theorem same_group_iff_key:
  assumes "sn1 \<in> set snapshots" and "sn2 \<in> set snapshots"
      and "\<not> excluded cmd sn1" and "\<not> excluded cmd sn2"
  shows "(same_group (group_snapshots cmd snapshots []) sn1 sn2 \<longleftrightarrow>
            Snapshot.Hostname sn1 = Snapshot.Hostname sn2 \<and>
            Join (Paths sn1) '':'' = Join (Paths sn2) '':'') \<and>
         (set (Paths sn1) = set (Paths sn2) \<and> Paths sn1 \<noteq> Paths sn2 \<and>
          (\<forall>p\<in>set (Paths sn1). CHR '':'' \<notin> set p) \<longrightarrow>
            \<not> same_group (group_snapshots cmd snapshots []) sn1 sn2)"
proof (intro conjI impI)
  show iff: "same_group (group_snapshots cmd snapshots []) sn1 sn2 \<longleftrightarrow>
            Snapshot.Hostname sn1 = Snapshot.Hostname sn2 \<and>
            Join (Paths sn1) '':'' = Join (Paths sn2) '':''"
    by (simp add: same_group_key [OF assms] key_of_def)
  assume h: "set (Paths sn1) = set (Paths sn2) \<and> Paths sn1 \<noteq> Paths sn2 \<and>
          (\<forall>p\<in>set (Paths sn1). CHR '':'' \<notin> set p)"
  then have ne: "Paths sn1 \<noteq> []" "Paths sn2 \<noteq> []" by auto
  from h have cf: "\<forall>p\<in>set (Paths sn1) \<union> set (Paths sn2). CHR '':'' \<notin> set p" by auto
  from Join_colon_free_inj [OF ne cf] h have "Join (Paths sn1) '':'' \<noteq> Join (Paths sn2) '':''"
    by auto
  with iff show "\<not> same_group (group_snapshots cmd snapshots []) sn1 sn2" by simp
qed

text \<open>
  C5 as stated fails: the path lists \<open>[a, a:a]\<close> and \<open>[a:a, a]\<close> are the same
  set of paths in different orders, both join to \<open>a:a:a\<close>, and the two snapshots
  share a group.
\<close>

theorem reordered_paths_same_group:
  "snP \<in> set [snP, snQ] \<and> snQ \<in> set [snP, snQ] \<and>
   \<not> excluded cmd0 snP \<and> \<not> excluded cmd0 snQ \<and>
   set (Paths snP) = set (Paths snQ) \<and> Paths snQ = rev (Paths snP) \<and> Paths snP \<noteq> Paths snQ \<and>
   same_group (group_snapshots cmd0 [snP, snQ] []) snP snQ"
  by (simp add: snP_def snQ_def cmd0_def excluded_def HasTags_def key_of_def group_lookup_def
                same_group_def insert_commute)

theorem same_group_iff_key_witness:
  "snA \<in> set store0 \<and> snB \<in> set store0 \<and> \<not> excluded cmd0 snA \<and> \<not> excluded cmd0 snB \<and>
   same_group (group_snapshots cmd0 store0 []) snA snB \<and>
   snR \<in> set [snR, snS] \<and> snS \<in> set [snR, snS] \<and> \<not> excluded cmd0 snR \<and> \<not> excluded cmd0 snS \<and>
   set (Paths snR) = set (Paths snS) \<and> Paths snR \<noteq> Paths snS \<and>
   list_all (\<lambda>p. CHR '':'' \<notin> set p) (Paths snR) \<and>
   \<not> same_group (group_snapshots cmd0 [snR, snS] []) snR snS"
proof -
  have a: "snA \<in> set store0" "snB \<in> set store0" "\<not> excluded cmd0 snA" "\<not> excluded cmd0 snB"
    by (simp_all add: store0_def excluded_def cmd0_def)
  have k: "Snapshot.Hostname snA = Snapshot.Hostname snB \<and>
           Join (Paths snA) '':'' = Join (Paths snB) '':''"
    by (simp add: snA_def snB_def)
  have r: "snR \<in> set [snR, snS]" "snS \<in> set [snR, snS]" "\<not> excluded cmd0 snR" "\<not> excluded cmd0 snS"
    by (simp_all add: excluded_def cmd0_def)
  have p: "set (Paths snR) = set (Paths snS) \<and> Paths snR \<noteq> Paths snS \<and>
           (\<forall>p\<in>set (Paths snR). CHR '':'' \<notin> set p)"
    by (simp add: snR_def snS_def insert_commute)
  note t1 = same_group_iff_key [OF a]
  note t2 = same_group_iff_key [OF r]
  from t1 k have s1: "same_group (group_snapshots cmd0 store0 []) snA snB" by blast
  from t2 p have s2: "\<not> same_group (group_snapshots cmd0 [snR, snS] []) snR snS" by blast
  from p have q: "list_all (\<lambda>p. CHR '':'' \<notin> set p) (Paths snR)"
    by (simp add: list_all_iff)
  from a r p q s1 s2 show ?thesis by blast
qed

subsection \<open>The policy evaluator\<close>

lemma evaluate_shape:
  "\<exists>K. evaluate cal grp policy =
         (map snd (filter (\<lambda>p. fst p \<in> K) (enumerate 0 (sort_key (\<lambda>sn. - Time sn) grp))),
          map snd (filter (\<lambda>p. fst p \<notin> K) (enumerate 0 (sort_key (\<lambda>sn. - Time sn) grp))))"
  unfolding evaluate_def Let_def case_prod_unfold
  by (rule exI) (rule refl)

lemma mset_split_filter:
  "mset (map f (filter P xs)) + mset (map f (filter (\<lambda>x. \<not> P x) xs)) = mset (map f xs)"
  by (induction xs) simp_all

lemma disjoint_split_filter:
  "distinct (map f xs) \<Longrightarrow> set (map f (filter P xs)) \<inter> set (map f (filter (\<lambda>x. \<not> P x) xs)) = {}"
  by (induction xs) auto

lemma distinct_ID: "distinct (map ID xs) \<Longrightarrow> distinct xs"
  by (simp add: distinct_map)

text \<open>
  C2: the evaluator splits a group in two. Every snapshot of the group appears in
  the keep-set or in the remove-set, as often in both together as in the group,
  and the two hold nothing else; for a group of snapshots with distinct
  identifiers, as in a repository, the two sets are disjoint and without
  repetition, so every snapshot is in exactly one of them.
\<close>

theorem evaluate_partition:
  assumes "evaluate cal grp policy = (keep, remove)"
  shows "mset keep + mset remove = mset grp \<and>
         set keep \<union> set remove = set grp \<and>
         (distinct (map ID grp) \<longrightarrow>
            set keep \<inter> set remove = {} \<and> distinct keep \<and> distinct remove)"
proof -
  let ?S = "enumerate 0 (sort_key (\<lambda>sn. - Time sn) grp)"
  from evaluate_shape [of cal grp policy] assms obtain K where
    keep: "keep = map snd (filter (\<lambda>p. fst p \<in> K) ?S)" and
    remove: "remove = map snd (filter (\<lambda>p. fst p \<notin> K) ?S)"
    by auto
  have S: "map snd ?S = sort_key (\<lambda>sn. - Time sn) grp"
    by simp
  have m: "mset keep + mset remove = mset grp"
    unfolding keep remove mset_split_filter S by simp
  from m have "set_mset (mset keep + mset remove) = set_mset (mset grp)"
    by simp
  then have u: "set keep \<union> set remove = set grp"
    by simp
  {
    assume "distinct (map ID grp)"
    then have "distinct grp" by (rule distinct_ID)
    then have d: "distinct (map snd ?S)" by (simp only: S distinct_sort)
    from disjoint_split_filter [OF d]
    have i: "set keep \<inter> set remove = {}"
      unfolding keep remove .
    from d have "distinct keep" "distinct remove"
      unfolding keep remove by (simp_all add: distinct_map_filter)
    with i have "set keep \<inter> set remove = {} \<and> distinct keep \<and> distinct remove"
      by simp
  }
  with m u show ?thesis by blast
qed

theorem evaluate_partition_witness:
  "evaluate cal0 store0 (policy_of (cmd0\<lparr>CmdForget.Daily := 1, KeepTags := [''pin'']\<rparr>)) =
     ([snD, snA], [snB, snC]) \<and>
   distinct (map ID store0) \<and>
   mset [snD, snA] + mset [snB, snC] = mset store0 \<and>
   set [snD, snA] \<union> set [snB, snC] = set store0 \<and>
   set [snD, snA] \<inter> set [snB, snC] = {}"
proof -
  have h: "evaluate cal0 store0 (policy_of (cmd0\<lparr>CmdForget.Daily := 1, KeepTags := [''pin'']\<rparr>)) =
     ([snD, snA], [snB, snC])"
    by code_simp
  have d: "distinct (map ID store0)"
    by (simp add: store0_def snA_def snB_def snC_def snD_def)
  from evaluate_partition [OF h] d h show ?thesis
    by blast
qed

end
